theory Spec2Isabelle
  imports Complex_Main
begin

section \<open>JavaScript numbers and values\<close>

text \<open>
  The transfer engine is JavaScript. A number is a double; the model idealises a finite
  double as a real (no rounding, no overflow, no signed zero) and keeps the three
  non-finite values apart, since the code tests for \<open>Infinity\<close> and since a division
  by zero yields \<open>Infinity\<close> or \<open>NaN\<close> instead of raising.
\<close>

datatype jsnum = JNum real | JPosInf | JNegInf | JNaN

text \<open>
  The values a caller can pass where a cap is expected: nothing, \<open>null\<close>, or a number.
  Strings, booleans and objects are left out.
\<close>

datatype jsval = JUndefined | JNull | JNumber jsnum

fun truthy :: "jsval \<Rightarrow> bool" where
  "truthy JUndefined = False"
| "truthy JNull = False"
| "truthy (JNumber (JNum r)) = (r \<noteq> 0)"
| "truthy (JNumber JNaN) = False"
| "truthy (JNumber JPosInf) = True"
| "truthy (JNumber JNegInf) = True"

text \<open>\<open>ToNumber\<close>, as \<open>Math.min\<close> applies it to its arguments.\<close>

fun to_number :: "jsval \<Rightarrow> jsnum" where
  "to_number JUndefined = JNaN"
| "to_number JNull = JNum 0"
| "to_number (JNumber n) = n"

text \<open>The idiom \<open>v || Infinity\<close>.\<close>

definition or_Infinity :: "jsval \<Rightarrow> jsval" where
  "or_Infinity v = (if truthy v then v else JNumber JPosInf)"

fun js_lt :: "jsnum \<Rightarrow> jsnum \<Rightarrow> bool" where
  "js_lt JNaN _ = False"
| "js_lt _ JNaN = False"
| "js_lt (JNum a) (JNum b) = (a < b)"
| "js_lt _ JNegInf = False"
| "js_lt JNegInf _ = True"
| "js_lt JPosInf _ = False"
| "js_lt (JNum a) JPosInf = True"


definition js_gt :: "jsnum \<Rightarrow> jsnum \<Rightarrow> bool" where
  "js_gt a b = js_lt b a"

text \<open>\<open>Math.min\<close> of two numbers: \<open>NaN\<close> if either is \<open>NaN\<close>.\<close>

definition js_min :: "jsnum \<Rightarrow> jsnum \<Rightarrow> jsnum" where
  "js_min a b = (if a = JNaN \<or> b = JNaN then JNaN else if js_lt b a then b else a)"

definition Math_min :: "jsval \<Rightarrow> jsval \<Rightarrow> jsnum" where
  "Math_min x y = js_min (to_number x) (to_number y)"

fun js_neg :: "jsnum \<Rightarrow> jsnum" where
  "js_neg (JNum a) = JNum (- a)"
| "js_neg JPosInf = JNegInf"
| "js_neg JNegInf = JPosInf"
| "js_neg JNaN = JNaN"

fun js_add :: "jsnum \<Rightarrow> jsnum \<Rightarrow> jsnum" where
  "js_add JNaN _ = JNaN"
| "js_add _ JNaN = JNaN"
| "js_add (JNum a) (JNum b) = JNum (a + b)"
| "js_add JPosInf JNegInf = JNaN"
| "js_add JNegInf JPosInf = JNaN"
| "js_add JPosInf _ = JPosInf"
| "js_add JNegInf _ = JNegInf"
| "js_add (JNum a) b = b"

definition js_sub :: "jsnum \<Rightarrow> jsnum \<Rightarrow> jsnum" where
  "js_sub a b = js_add a (js_neg b)"

text \<open>The sign of an infinite product or quotient, from a finite factor.\<close>

definition signed_inf :: "bool \<Rightarrow> jsnum" where
  "signed_inf positive = (if positive then JPosInf else JNegInf)"

fun js_mul :: "jsnum \<Rightarrow> jsnum \<Rightarrow> jsnum" where
  "js_mul JNaN _ = JNaN"
| "js_mul _ JNaN = JNaN"
| "js_mul (JNum a) (JNum b) = JNum (a * b)"
| "js_mul (JNum a) JPosInf = (if a = 0 then JNaN else signed_inf (0 < a))"
| "js_mul (JNum a) JNegInf = (if a = 0 then JNaN else signed_inf (a < 0))"
| "js_mul JPosInf (JNum b) = (if b = 0 then JNaN else signed_inf (0 < b))"
| "js_mul JNegInf (JNum b) = (if b = 0 then JNaN else signed_inf (b < 0))"
| "js_mul JPosInf JPosInf = JPosInf"
| "js_mul JPosInf JNegInf = JNegInf"
| "js_mul JNegInf JPosInf = JNegInf"
| "js_mul JNegInf JNegInf = JPosInf"

fun js_div :: "jsnum \<Rightarrow> jsnum \<Rightarrow> jsnum" where
  "js_div JNaN _ = JNaN"
| "js_div _ JNaN = JNaN"
| "js_div (JNum a) (JNum b) =
     (if b \<noteq> 0 then JNum (a / b) else if a = 0 then JNaN else signed_inf (0 < a))"
| "js_div (JNum a) _ = JNum 0"
| "js_div JPosInf (JNum b) = signed_inf (0 \<le> b)"
| "js_div JNegInf (JNum b) = signed_inf (b < 0)"
| "js_div _ _ = JNaN"

text \<open>\<open>Math.round\<close>: the nearest integer, halves rounded up.\<close>

fun Math_round :: "jsnum \<Rightarrow> jsnum" where
  "Math_round (JNum a) = JNum (of_int \<lfloor>a + 1 / 2\<rfloor>)"
| "Math_round n = n"

section \<open>The rate limiter (class SpeedLimiter)\<close>





text \<open>
  The elapsed-budget throttle in the specification's words, in seconds: the delay before
  the chunk is emitted (none when the budget covers it) and the bytes sent afterwards.
\<close>

datatype spec_emission = Emit_immediately | Emit_after_seconds real

definition spec_throttle :: "real \<Rightarrow> real \<Rightarrow> real \<Rightarrow> real \<Rightarrow> spec_emission \<times> real" where
  "spec_throttle elapsedSeconds capBytesPerSecond bytesSentSoFar c =
     (let expected = elapsedSeconds * capBytesPerSecond
      in if bytesSentSoFar + c \<le> expected then (Emit_immediately, bytesSentSoFar + c)
         else (Emit_after_seconds (((bytesSentSoFar + c) - expected) / capBytesPerSecond),
               bytesSentSoFar + c))"


section \<open>The limit registry (class SpeedLimitManager)\<close>

text \<open>
  \<open>limits\<close> is a \<open>Map\<close> from connection id to an object keyed by direction
  (\<open>upload\<close>, \<open>download\<close>); \<open>globalLimits\<close> is an object of the same shape that does
  not exist until the first \<open>setGlobalLimit\<close>.
\<close>

record SpeedLimitManager =
  limits :: "string \<rightharpoonup> (string \<rightharpoonup> jsval)"
  globalLimits :: "(string \<rightharpoonup> jsval) option"

definition new_SpeedLimitManager :: SpeedLimitManager where
  "new_SpeedLimitManager = \<lparr> limits = Map.empty, globalLimits = None \<rparr>"

text \<open>Reading a property of an object: \<open>undefined\<close> when it was never assigned.\<close>

definition get_prop :: "(string \<rightharpoonup> jsval) \<Rightarrow> string \<Rightarrow> jsval" where
  "get_prop obj k = (case obj k of None \<Rightarrow> JUndefined | Some v \<Rightarrow> v)"

definition setLimit :: "SpeedLimitManager \<Rightarrow> string \<Rightarrow> string \<Rightarrow> jsval \<Rightarrow> SpeedLimitManager" where
  "setLimit m connectionId type bytesPerSecond =
     (let obj = (case limits m connectionId of None \<Rightarrow> Map.empty | Some o1 \<Rightarrow> o1)
      in m\<lparr>limits := (limits m)(connectionId \<mapsto> obj(type \<mapsto> bytesPerSecond))\<rparr>)"

definition getLimit :: "SpeedLimitManager \<Rightarrow> string \<Rightarrow> string \<Rightarrow> jsval" where
  "getLimit m connectionId type =
     (case limits m connectionId of
        None \<Rightarrow> JNumber JPosInf
      | Some connectionLimits \<Rightarrow> or_Infinity (get_prop connectionLimits type))"

definition removeConnection :: "SpeedLimitManager \<Rightarrow> string \<Rightarrow> SpeedLimitManager" where
  "removeConnection m connectionId = m\<lparr>limits := (limits m)(connectionId := None)\<rparr>"

definition setGlobalLimit :: "SpeedLimitManager \<Rightarrow> string \<Rightarrow> jsval \<Rightarrow> SpeedLimitManager" where
  "setGlobalLimit m type bytesPerSecond =
     (let obj = (case globalLimits m of None \<Rightarrow> Map.empty | Some g \<Rightarrow> g)
      in m\<lparr>globalLimits := Some (obj(type \<mapsto> bytesPerSecond))\<rparr>)"

text \<open>The expression \<open>(this.globalLimits && this.globalLimits[type]) || Infinity\<close>.\<close>

definition global_or_Infinity :: "SpeedLimitManager \<Rightarrow> string \<Rightarrow> jsval" where
  "global_or_Infinity m type =
     or_Infinity (case globalLimits m of None \<Rightarrow> JUndefined | Some g \<Rightarrow> get_prop g type)"

definition getEffectiveLimit :: "SpeedLimitManager \<Rightarrow> string \<Rightarrow> string \<Rightarrow> jsnum" where
  "getEffectiveLimit m connectionId type =
     (let connectionLimit = getLimit m connectionId type;
          globalLimit = global_or_Infinity m type
      in Math_min connectionLimit globalLimit)"

text \<open>
  The cap a configuration holds for a connection and direction, and the global one:
  \<open>None\<close> when none was ever set.
\<close>

definition connection_cap :: "SpeedLimitManager \<Rightarrow> string \<Rightarrow> string \<Rightarrow> jsval option" where
  "connection_cap m connectionId type =
     (case limits m connectionId of None \<Rightarrow> None | Some obj \<Rightarrow> obj type)"

definition global_cap :: "SpeedLimitManager \<Rightarrow> string \<Rightarrow> jsval option" where
  "global_cap m type = (case globalLimits m of None \<Rightarrow> None | Some g \<Rightarrow> g type)"

text \<open>
  The effective cap in the specification's words: the minimum of the two caps, an absent
  cap counting as \<open>+\<infinity>\<close>.
\<close>

definition spec_cap :: "jsval option \<Rightarrow> jsnum" where
  "spec_cap slot = (case slot of None \<Rightarrow> JPosInf | Some v \<Rightarrow> to_number v)"

definition spec_getEffectiveLimit :: "SpeedLimitManager \<Rightarrow> string \<Rightarrow> string \<Rightarrow> jsnum" where
  "spec_getEffectiveLimit m connectionId type =
     js_min (spec_cap (connection_cap m connectionId type)) (spec_cap (global_cap m type))"

text \<open>
  What the code takes a cap to be: unbounded when absent and also when the stored value is
  falsy (\<open>0\<close>, \<open>NaN\<close>, \<open>null\<close>, \<open>undefined\<close>).
\<close>

definition cap_or_unbounded :: "jsval option \<Rightarrow> jsnum" where
  "cap_or_unbounded slot =
     (case slot of None \<Rightarrow> JPosInf | Some v \<Rightarrow> if truthy v then to_number v else JPosInf)"

section \<open>The session registry (class ConnectionManager)\<close>

text \<open>A thrown or rejected JavaScript \<open>Error\<close>, with its message.\<close>

datatype js_error = Error string

definition NotFound :: js_error where
  "NotFound = Error ''Connection not found''"

datatype conn_type = Ftp | Sftp

record config =
  protocol :: string
  host :: string
  username :: string
  preserveTimestamps :: bool

text \<open>
  An entry of \<open>connections\<close>. The transport handles (\<open>client\<close>, \<open>sftp\<close>) belong to
  the libraries and are not modelled; what the code asks of them is a \<open>transport_call\<close>.
\<close>

record connection =
  conn_id :: string
  conn_type :: conn_type
  conn_config :: config

record ConnectionManager =
  connections :: "string \<rightharpoonup> connection"
  speedLimitManager :: SpeedLimitManager

definition new_ConnectionManager :: ConnectionManager where
  "new_ConnectionManager = \<lparr> connections = Map.empty, speedLimitManager = new_SpeedLimitManager \<rparr>"

text \<open>
  \<open>connect(config)\<close>: \<open>uuid\<close> is the value of \<open>uuidv4()\<close>; the handshake is the
  library's, and \<open>Rejected\<close> carries the message of the error it ends with.
\<close>

datatype handshake = Connected | Rejected string

definition connect ::
  "ConnectionManager \<Rightarrow> config \<Rightarrow> string \<Rightarrow> handshake \<Rightarrow> js_error + (string \<times> ConnectionManager)" where
  "connect cm cfg uuid h =
     (if protocol cfg = ''ftp'' \<or> protocol cfg = ''ftps'' then
        (case h of
           Connected \<Rightarrow>
             Inr (uuid, cm\<lparr>connections := (connections cm)(uuid \<mapsto>
                    \<lparr> conn_id = uuid, conn_type = Ftp, conn_config = cfg \<rparr>)\<rparr>)
         | Rejected msg \<Rightarrow> Inl (Error (''FTP connection failed: '' @ msg)))
      else if protocol cfg = ''sftp'' then
        (case h of
           Connected \<Rightarrow>
             Inr (uuid, cm\<lparr>connections := (connections cm)(uuid \<mapsto>
                    \<lparr> conn_id = uuid, conn_type = Sftp, conn_config = cfg \<rparr>)\<rparr>)
         | Rejected msg \<Rightarrow> Inl (Error msg))
      else Inl (Error (''Unsupported protocol: '' @ protocol cfg)))"

text \<open>
  The options object handed to \<open>fastGet\<close> and \<open>fastPut\<close>: the chunk size, and the
  \<open>step\<close> closure, which is determined by the cap it captured and by whether a
  progress callback was passed.
\<close>

record transfer_options =
  opt_chunkSize :: jsnum
  opt_speedLimit :: jsnum
  opt_progressCallback :: bool

datatype transport_call =
    Ftp_close
  | Ssh_end
  | Ftp_list string
  | Sftp_readdir string
  | Ftp_downloadTo string string
  | Sftp_stat_then_fastGet string string transfer_options
  | Ftp_uploadFrom string string
  | Sftp_fastPut string string transfer_options
  | Sftp_rename string string
  | Sftp_unlink string
  | Ftp_remove string
  | Sftp_stat string
  | Sftp_chmod string string
  | Sftp_stat_mkdir_each string
  | Ftp_ensureDir string

definition disconnect ::
  "ConnectionManager \<Rightarrow> string \<Rightarrow> js_error + (transport_call \<times> ConnectionManager)" where
  "disconnect cm connectionId =
     (case connections cm connectionId of
        None \<Rightarrow> Inl (Error ''Connection not found'')
      | Some c \<Rightarrow>
          Inr (case conn_type c of Ftp \<Rightarrow> Ftp_close | Sftp \<Rightarrow> Ssh_end,
               cm\<lparr>connections := (connections cm)(connectionId := None)\<rparr>))"

definition listDirectory :: "ConnectionManager \<Rightarrow> string \<Rightarrow> string \<Rightarrow> js_error + transport_call" where
  "listDirectory cm connectionId remotePath =
     (case connections cm connectionId of
        None \<Rightarrow> Inl (Error ''Connection not found'')
      | Some c \<Rightarrow>
          (case conn_type c of
             Ftp \<Rightarrow> Inr (Ftp_list remotePath)
           | Sftp \<Rightarrow> Inr (Sftp_readdir remotePath)))"

text \<open>\<open>speedLimit === Infinity ? 65536 : Math.min(65536, speedLimit / 10)\<close>\<close>

definition chunk_size_for :: "jsnum \<Rightarrow> jsnum" where
  "chunk_size_for speedLimit =
     (if speedLimit = JPosInf then JNum 65536
      else js_min (JNum 65536) (js_div speedLimit (JNum 10)))"

text \<open>
  The functions below return the error they throw, or the call they make on the library
  (what the library answers is not modelled). For SFTP, \<open>downloadFile\<close> asks for the
  file's \<open>stat\<close> first and builds the options in its callback.
\<close>

definition downloadFile ::
  "ConnectionManager \<Rightarrow> string \<Rightarrow> string \<Rightarrow> string \<Rightarrow> bool \<Rightarrow> js_error + transport_call" where
  "downloadFile cm connectionId remotePath localPath progressCallback =
     (case connections cm connectionId of
        None \<Rightarrow> Inl (Error ''Connection not found'')
      | Some c \<Rightarrow>
          (case conn_type c of
             Ftp \<Rightarrow> Inr (Ftp_downloadTo localPath remotePath)
           | Sftp \<Rightarrow>
               let speedLimit = getEffectiveLimit (speedLimitManager cm) connectionId ''download''
               in Inr (Sftp_stat_then_fastGet remotePath localPath
                        \<lparr> opt_chunkSize = chunk_size_for speedLimit,
                          opt_speedLimit = speedLimit,
                          opt_progressCallback = progressCallback \<rparr>)))"

text \<open>
  \<open>existsSync\<close> is the answer of \<open>fs.existsSync(localPath)\<close>. The 30 second timer
  that rejects a slow SFTP upload is not modelled.
\<close>

definition uploadFile ::
  "ConnectionManager \<Rightarrow> string \<Rightarrow> string \<Rightarrow> string \<Rightarrow> bool \<Rightarrow> bool \<Rightarrow> js_error + transport_call" where
  "uploadFile cm connectionId localPath remotePath progressCallback existsSync =
     (case connections cm connectionId of
        None \<Rightarrow> Inl (Error ''Connection not found'')
      | Some c \<Rightarrow>
          if \<not> existsSync then Inl (Error (''Local file not found: '' @ localPath))
          else
            (case conn_type c of
               Ftp \<Rightarrow> Inr (Ftp_uploadFrom localPath remotePath)
             | Sftp \<Rightarrow>
                 let speedLimit = getEffectiveLimit (speedLimitManager cm) connectionId ''upload''
                 in Inr (Sftp_fastPut localPath remotePath
                          \<lparr> opt_chunkSize = chunk_size_for speedLimit,
                            opt_speedLimit = speedLimit,
                            opt_progressCallback = progressCallback \<rparr>)))"

definition renameFile ::
  "ConnectionManager \<Rightarrow> string \<Rightarrow> string \<Rightarrow> string \<Rightarrow> js_error + transport_call" where
  "renameFile cm connectionId oldPath newPath =
     (case connections cm connectionId of
        None \<Rightarrow> Inl (Error ''Connection not found'')
      | Some c \<Rightarrow>
          (case conn_type c of
             Sftp \<Rightarrow> Inr (Sftp_rename oldPath newPath)
           | Ftp \<Rightarrow> Inl (Error ''Rename not supported for FTP connections'')))"

definition deleteFile :: "ConnectionManager \<Rightarrow> string \<Rightarrow> string \<Rightarrow> js_error + transport_call" where
  "deleteFile cm connectionId filePath =
     (case connections cm connectionId of
        None \<Rightarrow> Inl (Error ''Connection not found'')
      | Some c \<Rightarrow>
          (case conn_type c of
             Sftp \<Rightarrow> Inr (Sftp_unlink filePath)
           | Ftp \<Rightarrow> Inr (Ftp_remove filePath)))"

definition getFileStats :: "ConnectionManager \<Rightarrow> string \<Rightarrow> string \<Rightarrow> js_error + transport_call" where
  "getFileStats cm connectionId filePath =
     (case connections cm connectionId of
        None \<Rightarrow> Inl (Error ''Connection not found'')
      | Some c \<Rightarrow>
          (case conn_type c of
             Sftp \<Rightarrow> Inr (Sftp_stat filePath)
           | Ftp \<Rightarrow> Inl (Error ''File stats not available for FTP connections'')))"

definition chmod ::
  "ConnectionManager \<Rightarrow> string \<Rightarrow> string \<Rightarrow> string \<Rightarrow> js_error + transport_call" where
  "chmod cm connectionId filePath mode =
     (case connections cm connectionId of
        None \<Rightarrow> Inl (Error ''Connection not found'')
      | Some c \<Rightarrow>
          (case conn_type c of
             Sftp \<Rightarrow> Inr (Sftp_chmod filePath mode)
           | Ftp \<Rightarrow> Inl (Error ''Chmod not supported for FTP connections'')))"

definition createDirectory :: "ConnectionManager \<Rightarrow> string \<Rightarrow> string \<Rightarrow> js_error + transport_call" where
  "createDirectory cm connectionId remotePath =
     (case connections cm connectionId of
        None \<Rightarrow> Inl (Error ''Connection not found'')
      | Some c \<Rightarrow>
          (case conn_type c of
             Sftp \<Rightarrow> Inr (Sftp_stat_mkdir_each remotePath)
           | Ftp \<Rightarrow> Inr (Ftp_ensureDir remotePath)))"

definition setSpeedLimit ::
  "ConnectionManager \<Rightarrow> string \<Rightarrow> string \<Rightarrow> jsval \<Rightarrow> ConnectionManager" where
  "setSpeedLimit cm connectionId type bytesPerSecond =
     cm\<lparr>speedLimitManager := setLimit (speedLimitManager cm) connectionId type bytesPerSecond\<rparr>"

definition setGlobalSpeedLimit :: "ConnectionManager \<Rightarrow> string \<Rightarrow> jsval \<Rightarrow> ConnectionManager" where
  "setGlobalSpeedLimit cm type bytesPerSecond =
     cm\<lparr>speedLimitManager := setGlobalLimit (speedLimitManager cm) type bytesPerSecond\<rparr>"

record speed_limits =
  upload :: jsval
  download :: jsval
  globalUpload :: jsval
  globalDownload :: jsval

definition getSpeedLimits :: "ConnectionManager \<Rightarrow> string \<Rightarrow> speed_limits" where
  "getSpeedLimits cm connectionId =
     \<lparr> upload = getLimit (speedLimitManager cm) connectionId ''upload'',
       download = getLimit (speedLimitManager cm) connectionId ''download'',
       globalUpload = global_or_Infinity (speedLimitManager cm) ''upload'',
       globalDownload = global_or_Infinity (speedLimitManager cm) ''download'' \<rparr>"

subsection \<open>The step callback of an SFTP transfer\<close>

text \<open>
  \<open>downloadFile\<close> and \<open>uploadFile\<close> build the same \<open>step\<close> closure (the two copies in
  the source differ in the text they log). Its captured variables:
\<close>

record step_state =
  st_speedLimit :: jsnum
  st_fileSize :: nat
  st_progressCallback :: bool
  st_startTime :: int
  st_lastTime :: int
  st_lastTransferred :: nat
  st_totalTransferred :: nat

text \<open>The closure as created at clock reading \<open>now\<close>, for a file of \<open>fileSize\<close> bytes.\<close>

definition new_step :: "transfer_options \<Rightarrow> int \<Rightarrow> nat \<Rightarrow> step_state" where
  "new_step opts now fileSize =
     \<lparr> st_speedLimit = opt_speedLimit opts,
       st_fileSize = fileSize,
       st_progressCallback = opt_progressCallback opts,
       st_startTime = now,
       st_lastTime = now,
       st_lastTransferred = 0,
       st_totalTransferred = 0 \<rparr>"

text \<open>The object passed to \<open>progressCallback\<close>; \<open>pr_speedLimit\<close> is \<open>null\<close> without a cap.\<close>

record progress_report =
  pr_percent :: jsnum
  pr_transferred :: nat
  pr_total :: nat
  pr_speed :: jsnum
  pr_speedLimit :: "jsnum option"

text \<open>
  One call of \<open>step\<close> returns a promise that resolves after a delay (and reports nothing),
  or reports to the progress callback, or, without a callback, does neither.
\<close>

datatype step_result = Delay jsnum | Report progress_report | No_callback

text \<open>
  \<open>step(total_transferred, chunk, total)\<close>. The two clock readings are those of the two
  \<open>Date.now()\<close> calls, the first in the throttle, the second in the report.
\<close>

definition step ::
  "step_state \<Rightarrow> int \<Rightarrow> int \<Rightarrow> nat \<Rightarrow> nat \<Rightarrow> step_result \<times> step_state" where
  "step st clock1 clock2 total_transferred total_size =
     (let st1 = st\<lparr>st_totalTransferred := total_transferred\<rparr>;
          percent = Math_round (js_mul (js_div (JNum (real total_transferred)) (JNum (real total_size))) (JNum 100));
          speedLimit = st_speedLimit st;
          elapsed = JNum (real_of_int (clock1 - st_startTime st) / 1000);
          expectedBytes = js_mul elapsed speedLimit
      in if speedLimit \<noteq> JPosInf \<and> js_gt (JNum (real total_transferred)) expectedBytes then
           let excessBytes = js_sub (JNum (real total_transferred)) expectedBytes;
               delay = js_mul (js_div excessBytes speedLimit) (JNum 1000)
           in (Delay delay, st1)
         else if st_progressCallback st then
           let timeDiff = real_of_int (clock2 - st_lastTime st) / 1000;
               bytesDiff = real total_transferred - real (st_lastTransferred st);
               speed = (if timeDiff > 0 then js_div (JNum bytesDiff) (JNum timeDiff) else JNum 0)
           in (Report \<lparr> pr_percent = percent,
                        pr_transferred = total_transferred,
                        pr_total = st_fileSize st,
                        pr_speed = speed,
                        pr_speedLimit = (if speedLimit = JPosInf then None else Some speedLimit) \<rparr>,
               st1\<lparr>st_lastTime := clock2, st_lastTransferred := total_transferred\<rparr>)
         else (No_callback, st1))"

text \<open>
  A chunk as the library announces it: the two clock readings of the call, the bytes
  transferred so far and the total.
\<close>

type_synonym chunk_event = "int \<times> int \<times> nat \<times> nat"

fun run_steps :: "step_state \<Rightarrow> chunk_event list \<Rightarrow> step_result list" where
  "run_steps st [] = []"
| "run_steps st ((clock1, clock2, total_transferred, total_size) # evs) =
     (let (r, st') = step st clock1 clock2 total_transferred total_size in r # run_steps st' evs)"

text \<open>
  What this program does per chunk while a transport call runs: the results of its
  \<open>step\<close> closure when the call was given one, nothing otherwise.
\<close>

fun per_chunk :: "transport_call \<Rightarrow> int \<Rightarrow> nat \<Rightarrow> chunk_event list \<Rightarrow> step_result list" where
  "per_chunk (Sftp_stat_then_fastGet remotePath localPath opts) now fileSize evs =
     run_steps (new_step opts now fileSize) evs"
| "per_chunk (Sftp_fastPut localPath remotePath opts) now fileSize evs =
     run_steps (new_step opts now fileSize) evs"
| "per_chunk call now fileSize evs = []"

section \<open>The transfer queue (class TransferQueue)\<close>

datatype status = St_queued | St_active | St_paused | St_completed | St_error | St_cancelled

text \<open>The descriptor passed to \<open>addTransfer\<close>; \<open>t_size\<close> is \<open>None\<close> when it has no size.\<close>

record transfer =
  t_type :: string
  t_localPath :: string
  t_remotePath :: string
  t_size :: "nat option"
  t_connectionId :: string

record queueItem =
  item_id :: nat
  item_type :: string
  localPath :: string
  remotePath :: string
  fileName :: string
  item_size :: nat
  connectionId :: string
  status :: status
  progress :: jsnum
  speed :: jsnum
  item_startTime :: "int option"
  item_error :: "string option"
  isPaused :: bool

text \<open>
  \<open>path.basename\<close> on POSIX paths: the part after the last \<open>/\<close>, trailing
  separators dropped first.
\<close>

definition basename :: "string \<Rightarrow> string" where
  "basename p =
     rev (takeWhile (\<lambda>c. c \<noteq> CHR ''/'') (dropWhile (\<lambda>c. c = CHR ''/'') (rev p)))"

text \<open>What the renderer sends to the main process with \<open>ipcRenderer.send\<close>.\<close>

datatype ipc_message = Pause_transfer nat | Cancel_transfer nat

text \<open>
  The queue. Its items are objects shared between \<open>queue\<close>, \<open>activeTransfers\<close> and
  the closures of running transfers, so they live in a store, \<open>objs\<close>, and the
  containers hold references. An item is stored under its id, which \<open>addTransfer\<close>
  never hands out twice. \<open>activeTransfers\<close> is the key list of the \<open>Map\<close>, in
  insertion order; the value under a key is the object with that id.
  \<open>invocations\<close> lists the transfers whose \<open>ipcRenderer.invoke\<close> has not returned
  yet, \<open>timers\<close> counts the pending \<open>setTimeout(() => this.processQueue(), 100)\<close>,
  and \<open>sent\<close> is the log of messages sent.
\<close>

record TransferQueue =
  objs :: "nat \<rightharpoonup> queueItem"
  queue :: "nat list"
  activeTransfers :: "nat list"
  maxConcurrent :: nat
  tq_isPaused :: bool
  queueId :: nat
  invocations :: "nat list"
  timers :: nat
  sent :: "ipc_message list"

definition new_TransferQueue :: TransferQueue where
  "new_TransferQueue =
     \<lparr> objs = Map.empty, queue = [], activeTransfers = [], maxConcurrent = 3,
       tq_isPaused = False, queueId = 0, invocations = [], timers = 0, sent = [] \<rparr>"

definition status_of :: "TransferQueue \<Rightarrow> nat \<Rightarrow> status option" where
  "status_of tq a = map_option status (objs tq a)"

text \<open>\<open>t => t.status === 'active'\<close>\<close>

definition is_active :: "TransferQueue \<Rightarrow> nat \<Rightarrow> bool" where
  "is_active tq a = (status_of tq a = Some St_active)"

text \<open>\<open>t => t.status === 'queued' && !t.isPaused\<close>\<close>

definition eligible :: "TransferQueue \<Rightarrow> nat \<Rightarrow> bool" where
  "eligible tq a =
     (case objs tq a of None \<Rightarrow> False | Some t \<Rightarrow> status t = St_queued \<and> \<not> isPaused t)"

text \<open>\<open>this.queue.find(t => t.id === id)\<close>: the reference found, if any.\<close>

definition find_transfer :: "TransferQueue \<Rightarrow> nat \<Rightarrow> nat option" where
  "find_transfer tq i =
     List.find (\<lambda>a. case objs tq a of None \<Rightarrow> False | Some t \<Rightarrow> item_id t = i) (queue tq)"

text \<open>\<open>Map.set\<close> and \<open>Map.delete\<close> on the key list.\<close>

definition map_set :: "nat list \<Rightarrow> nat \<Rightarrow> nat list" where
  "map_set ks k = (if List.member ks k then ks else ks @ [k])"

definition map_delete :: "nat list \<Rightarrow> nat \<Rightarrow> nat list" where
  "map_delete ks k = removeAll k ks"

text \<open>
  \<open>processQueue()\<close> up to its \<open>await\<close>, at clock reading \<open>now\<close>: the pass starts at
  most one transfer, whose \<open>executeTransfer\<close> runs up to its \<open>ipcRenderer.invoke\<close>.
\<close>

definition processQueue :: "int \<Rightarrow> TransferQueue \<Rightarrow> TransferQueue" where
  "processQueue now tq =
     (if tq_isPaused tq then tq
      else
        let activeCount = length (filter (is_active tq) (activeTransfers tq))
        in if activeCount \<ge> maxConcurrent tq then tq
           else
             (case List.find (eligible tq) (queue tq) of
                None \<Rightarrow> tq
              | Some a \<Rightarrow>
                  (case objs tq a of
                     None \<Rightarrow> tq
                   | Some nextTransfer \<Rightarrow>
                       tq\<lparr>objs := (objs tq)(a \<mapsto>
                              nextTransfer\<lparr>status := St_active, item_startTime := Some now\<rparr>),
                          activeTransfers := map_set (activeTransfers tq) (item_id nextTransfer),
                          invocations := invocations tq @ [a]\<rparr>)))"

text \<open>
  How a started transfer ends: the invocation answers \<open>success\<close>; or it answers
  \<open>success\<close> and the refresh of the remote listing that follows throws; or it answers
  with an error (or is rejected).
\<close>

datatype outcome = Succeeded | Succeeded_refresh_threw string | Failed string

text \<open>
  The rest of \<open>executeTransfer\<close> and of \<open>processQueue\<close>, run when the invocation of
  the transfer stored at \<open>a\<close> returns. Nothing else runs between the two (only an
  \<open>await\<close> of a settled promise separates them), so the model takes them as one step.
\<close>

definition finish :: "nat \<Rightarrow> outcome \<Rightarrow> TransferQueue \<Rightarrow> TransferQueue" where
  "finish a r tq =
     (if \<not> List.member (invocations tq) a then tq
      else
        (case objs tq a of
           None \<Rightarrow> tq
         | Some t \<Rightarrow>
             let t' = (case r of
                         Succeeded \<Rightarrow> t\<lparr>status := St_completed, progress := JNum 100\<rparr>
                       | Succeeded_refresh_threw msg \<Rightarrow>
                           t\<lparr>status := St_error, progress := JNum 100, item_error := Some msg\<rparr>
                       | Failed msg \<Rightarrow> t\<lparr>status := St_error, item_error := Some msg\<rparr>)
             in tq\<lparr>objs := (objs tq)(a \<mapsto> t'),
                   activeTransfers := map_delete (activeTransfers tq) (item_id t),
                   invocations := remove1 a (invocations tq),
                   timers := timers tq + 1\<rparr>))"

text \<open>A pending timer fires.\<close>

definition timer_fires :: "int \<Rightarrow> TransferQueue \<Rightarrow> TransferQueue" where
  "timer_fires now tq =
     (if timers tq = 0 then tq else processQueue now (tq\<lparr>timers := timers tq - 1\<rparr>))"

text \<open>\<open>addTransfer\<close> up to its call of \<open>processQueue\<close>: the new id and the queue.\<close>

definition push_transfer :: "transfer \<Rightarrow> TransferQueue \<Rightarrow> nat \<times> TransferQueue" where
  "push_transfer tr tq =
     (let i = queueId tq + 1;
          queueItem =
            \<lparr> item_id = i,
              item_type = t_type tr,
              localPath = t_localPath tr,
              remotePath = t_remotePath tr,
              fileName = basename (if t_type tr = ''upload'' then t_localPath tr else t_remotePath tr),
              item_size = (case t_size tr of None \<Rightarrow> 0 | Some n \<Rightarrow> n),
              connectionId = t_connectionId tr,
              status = St_queued,
              progress = JNum 0,
              speed = JNum 0,
              item_startTime = None,
              item_error = None,
              isPaused = False \<rparr>
      in (i, tq\<lparr>queueId := i, objs := (objs tq)(i \<mapsto> queueItem), queue := queue tq @ [i]\<rparr>))"

definition addTransfer :: "int \<Rightarrow> transfer \<Rightarrow> TransferQueue \<Rightarrow> nat \<times> TransferQueue" where
  "addTransfer now tr tq =
     (let (i, tq1) = push_transfer tr tq in (i, processQueue now tq1))"

definition pauseTransfer :: "nat \<Rightarrow> TransferQueue \<Rightarrow> TransferQueue" where
  "pauseTransfer i tq =
     (case find_transfer tq i of
        None \<Rightarrow> tq
      | Some a \<Rightarrow>
          (case objs tq a of
             None \<Rightarrow> tq
           | Some t \<Rightarrow>
               if status t = St_active then
                 tq\<lparr>objs := (objs tq)(a \<mapsto> t\<lparr>isPaused := True, status := St_paused\<rparr>),
                    sent := sent tq @ [Pause_transfer i]\<rparr>
               else tq))"

definition resumeTransfer :: "int \<Rightarrow> nat \<Rightarrow> TransferQueue \<Rightarrow> TransferQueue" where
  "resumeTransfer now i tq =
     (case find_transfer tq i of
        None \<Rightarrow> tq
      | Some a \<Rightarrow>
          (case objs tq a of
             None \<Rightarrow> tq
           | Some t \<Rightarrow>
               if status t = St_paused then
                 processQueue now
                   (tq\<lparr>objs := (objs tq)(a \<mapsto> t\<lparr>isPaused := False, status := St_queued\<rparr>)\<rparr>)
               else tq))"

definition cancelTransfer :: "int \<Rightarrow> nat \<Rightarrow> TransferQueue \<Rightarrow> TransferQueue" where
  "cancelTransfer now i tq =
     (case find_transfer tq i of
        None \<Rightarrow> tq
      | Some a \<Rightarrow>
          (case objs tq a of
             None \<Rightarrow> tq
           | Some t \<Rightarrow>
               processQueue now
                 (tq\<lparr>sent := (if status t = St_active then sent tq @ [Cancel_transfer i] else sent tq),
                     objs := (objs tq)(a \<mapsto> t\<lparr>status := St_cancelled\<rparr>),
                     activeTransfers := map_delete (activeTransfers tq) i\<rparr>)))"

text \<open>
  \<open>forEach\<close> over the queue reads each item's status when its turn comes, after the
  calls made for the items before it.
\<close>

definition pauseAll :: "TransferQueue \<Rightarrow> TransferQueue" where
  "pauseAll tq =
     foldl (\<lambda>s a. case objs s a of
                     None \<Rightarrow> s
                   | Some t \<Rightarrow> if status t = St_active then pauseTransfer (item_id t) s else s)
       (tq\<lparr>tq_isPaused := True\<rparr>) (queue tq)"

definition resumeAll :: "int \<Rightarrow> TransferQueue \<Rightarrow> TransferQueue" where
  "resumeAll now tq =
     foldl (\<lambda>s a. case objs s a of
                     None \<Rightarrow> s
                   | Some t \<Rightarrow> if status t = St_paused then resumeTransfer now (item_id t) s else s)
       (tq\<lparr>tq_isPaused := False\<rparr>) (queue tq)"

definition terminal :: "status \<Rightarrow> bool" where
  "terminal s = (s = St_completed \<or> s = St_cancelled \<or> s = St_error)"

definition clearCompleted :: "TransferQueue \<Rightarrow> TransferQueue" where
  "clearCompleted tq =
     tq\<lparr>queue := filter (\<lambda>a. case objs tq a of None \<Rightarrow> False | Some t \<Rightarrow> \<not> terminal (status t))
                    (queue tq)\<rparr>"

text \<open>
  The renderer's listener for \<open>transfer-progress\<close>: \<open>progress.percent || 0\<close> and
  \<open>progress.speed || 0\<close> are stored in the item with that id, if the queue has one.
\<close>

definition or_zero :: "jsnum \<Rightarrow> jsnum" where
  "or_zero n = (if truthy (JNumber n) then n else JNum 0)"

definition transfer_progress :: "nat \<Rightarrow> jsnum \<Rightarrow> jsnum \<Rightarrow> TransferQueue \<Rightarrow> TransferQueue" where
  "transfer_progress i percent spd tq =
     (case find_transfer tq i of
        None \<Rightarrow> tq
      | Some a \<Rightarrow>
          (case objs tq a of
             None \<Rightarrow> tq
           | Some t \<Rightarrow> tq\<lparr>objs := (objs tq)(a \<mapsto> t\<lparr>progress := or_zero percent, speed := or_zero spd\<rparr>)\<rparr>))"

text \<open>
  Everything that can happen to the queue: the calls of its interface, and the three
  things the event loop delivers (an invocation returns, a timer fires, a progress
  message arrives).
\<close>

datatype event =
    AddTransfer int transfer
  | PauseTransfer nat
  | ResumeTransfer int nat
  | CancelTransfer int nat
  | PauseAll
  | ResumeAll int
  | ClearCompleted
  | Finish nat outcome
  | TimerFires int
  | Progress nat jsnum jsnum

fun apply_event :: "TransferQueue \<Rightarrow> event \<Rightarrow> TransferQueue" where
  "apply_event tq (AddTransfer now tr) = snd (addTransfer now tr tq)"
| "apply_event tq (PauseTransfer i) = pauseTransfer i tq"
| "apply_event tq (ResumeTransfer now i) = resumeTransfer now i tq"
| "apply_event tq (CancelTransfer now i) = cancelTransfer now i tq"
| "apply_event tq PauseAll = pauseAll tq"
| "apply_event tq (ResumeAll now) = resumeAll now tq"
| "apply_event tq ClearCompleted = clearCompleted tq"
| "apply_event tq (Finish a r) = finish a r tq"
| "apply_event tq (TimerFires now) = timer_fires now tq"
| "apply_event tq (Progress i percent spd) = transfer_progress i percent spd tq"

definition run :: "TransferQueue \<Rightarrow> event list \<Rightarrow> TransferQueue" where
  "run tq evs = foldl apply_event tq evs"

text \<open>The number of items of the queue whose status is \<open>active\<close>.\<close>

definition active_count :: "TransferQueue \<Rightarrow> nat" where
  "active_count tq = length (filter (is_active tq) (queue tq))"

text \<open>
  What holds of the queue in every state it can reach: an item is stored under its own id,
  and no id beyond \<open>queueId\<close> is in use; the queue refers to stored items, in the order
  of their ids; the key list of \<open>activeTransfers\<close> has no key twice and holds every
  active item; and the active items among its values are at most \<open>maxConcurrent\<close>.
\<close>

definition queue_inv :: "TransferQueue \<Rightarrow> bool" where
  "queue_inv tq \<longleftrightarrow>
     (\<forall>a t. objs tq a = Some t \<longrightarrow> item_id t = a \<and> a \<le> queueId tq)
   \<and> set (queue tq) \<subseteq> dom (objs tq)
   \<and> sorted_wrt (<) (queue tq)
   \<and> distinct (activeTransfers tq)
   \<and> (\<forall>a. is_active tq a \<longrightarrow> a \<in> set (activeTransfers tq))
   \<and> length (filter (is_active tq) (activeTransfers tq)) \<le> maxConcurrent tq"

text \<open>A transfer that is being waited for refers to a stored item.\<close>

definition invocations_stored :: "TransferQueue \<Rightarrow> bool" where
  "invocations_stored tq \<longleftrightarrow> set (invocations tq) \<subseteq> dom (objs tq)"

section \<open>Concrete inputs\<close>

text \<open>An upload descriptor for the file named \<open>n\<close>, on the session \<open>c1\<close>.\<close>

definition example_upload :: "string \<Rightarrow> transfer" where
  "example_upload n =
     \<lparr> t_type = ''upload'', t_localPath = ''/home/u/'' @ n, t_remotePath = ''/srv/'' @ n,
       t_size = Some 10, t_connectionId = ''c1'' \<rparr>"

text \<open>
  A manager with one session, \<open>c1\<close>, connected over the given protocol, with global caps
  of 1024 bytes per second in both directions and a per-connection upload cap of 2048.
\<close>

definition example_session :: "string \<Rightarrow> ConnectionManager" where
  "example_session proto =
     (case connect new_ConnectionManager
             \<lparr> protocol = proto, host = ''example.org'', username = ''u'',
               preserveTimestamps = False \<rparr> ''c1'' Connected of
        Inl e \<Rightarrow> new_ConnectionManager
      | Inr (i, cm) \<Rightarrow>
          setSpeedLimit
            (setGlobalSpeedLimit
               (setGlobalSpeedLimit cm ''download'' (JNumber (JNum 1024)))
               ''upload'' (JNumber (JNum 1024)))
            i ''upload'' (JNumber (JNum 2048)))"

text \<open>Two chunks of a transfer of 4096 bytes, announced after 1 and after 4 seconds.\<close>

definition example_chunks :: "chunk_event list" where
  "example_chunks = [(1000, 1000, 2048, 4096), (4000, 4000, 4096, 4096)]"

text \<open>
  Two uploads are enqueued on a queue that runs one transfer at a time, and the first,
  which is running, is paused.
\<close>

definition example_events :: "event list" where
  "example_events =
     [AddTransfer 0 (example_upload ''a''), AddTransfer 1 (example_upload ''b''), PauseTransfer 1]"

text \<open>Five uploads are enqueued.\<close>

definition five_uploads :: "event list" where
  "five_uploads =
     [AddTransfer 0 (example_upload ''a''), AddTransfer 1 (example_upload ''b''),
      AddTransfer 2 (example_upload ''c''), AddTransfer 3 (example_upload ''d''),
      AddTransfer 4 (example_upload ''e'')]"

section \<open>Evaluating the model on concrete inputs\<close>

lemmas tq_eval = run_def addTransfer_def push_transfer_def processQueue_def new_TransferQueue_def
  is_active_def status_of_def eligible_def map_set_def map_delete_def active_count_def Let_def
  finish_def cancelTransfer_def pauseTransfer_def resumeTransfer_def find_transfer_def
  timer_fires_def basename_def example_upload_def example_events_def five_uploads_def

lemmas cm_eval = example_session_def connect_def new_ConnectionManager_def
  new_SpeedLimitManager_def setSpeedLimit_def setGlobalSpeedLimit_def setLimit_def
  setGlobalLimit_def getSpeedLimits_def getLimit_def global_or_Infinity_def or_Infinity_def
  get_prop_def getEffectiveLimit_def Math_min_def js_min_def

section \<open>The limit registry: effective cap and round trip\<close>

lemma to_number_or_Infinity:
  "to_number (or_Infinity v) = (if truthy v then to_number v else JPosInf)"
  by (simp add: or_Infinity_def)

lemma getLimit_cap: "to_number (getLimit m c t) = cap_or_unbounded (connection_cap m c t)"
  by (simp add: getLimit_def connection_cap_def cap_or_unbounded_def get_prop_def
      to_number_or_Infinity split: option.splits)

lemma global_or_Infinity_cap:
  "to_number (global_or_Infinity m t) = cap_or_unbounded (global_cap m t)"
  by (simp add: global_or_Infinity_def global_cap_def cap_or_unbounded_def get_prop_def
      to_number_or_Infinity split: option.splits)

text \<open>
  Claim C1, as stated, fails: with a per-connection upload cap of 0 and a global upload
  cap of 100 the minimum of the two caps is 0, and \<open>getEffectiveLimit\<close> returns 100,
  because \<open>getLimit\<close> reads a stored 0 as \<open>Infinity\<close>.
\<close>

theorem C1_zero_cap_counterexample:
  "getEffectiveLimit
     (setGlobalLimit (setLimit new_SpeedLimitManager ''c1'' ''upload'' (JNumber (JNum 0)))
        ''upload'' (JNumber (JNum 100)))
     ''c1'' ''upload'' = JNum 100
   \<and> spec_getEffectiveLimit
     (setGlobalLimit (setLimit new_SpeedLimitManager ''c1'' ''upload'' (JNumber (JNum 0)))
        ''upload'' (JNumber (JNum 100)))
     ''c1'' ''upload'' = JNum 0
   \<and> getEffectiveLimit
     (setGlobalLimit (setLimit new_SpeedLimitManager ''c1'' ''upload'' (JNumber (JNum 0)))
        ''upload'' (JNumber (JNum 100)))
     ''c1'' ''upload''
     \<noteq> spec_getEffectiveLimit
     (setGlobalLimit (setLimit new_SpeedLimitManager ''c1'' ''upload'' (JNumber (JNum 0)))
        ''upload'' (JNumber (JNum 100)))
     ''c1'' ''upload''"
  by (simp add: getEffectiveLimit_def spec_getEffectiveLimit_def setGlobalLimit_def setLimit_def
      new_SpeedLimitManager_def getLimit_def global_or_Infinity_def or_Infinity_def get_prop_def
      Math_min_def js_min_def connection_cap_def global_cap_def spec_cap_def)

text \<open>
  Claim C1, amended: for every configuration, \<open>getEffectiveLimit\<close> returns the minimum
  of the per-connection cap and the global cap for that direction, where a cap that is
  absent or falsy (0, NaN, null, undefined) counts as unbounded; the result is unbounded
  when both are unset; and where every configured cap is truthy the result is the minimum
  exactly as the specification words it.
\<close>

theorem C1_effective_limit:
  "getEffectiveLimit m c t =
      js_min (cap_or_unbounded (connection_cap m c t)) (cap_or_unbounded (global_cap m t))
   \<and> (connection_cap m c t = None \<and> global_cap m t = None \<longrightarrow>
        getEffectiveLimit m c t = JPosInf)
   \<and> ((\<forall>v. connection_cap m c t = Some v \<longrightarrow> truthy v) \<and>
      (\<forall>v. global_cap m t = Some v \<longrightarrow> truthy v) \<longrightarrow>
        getEffectiveLimit m c t = spec_getEffectiveLimit m c t)"
proof -
  have eq: "getEffectiveLimit m c t =
      js_min (cap_or_unbounded (connection_cap m c t)) (cap_or_unbounded (global_cap m t))"
    by (simp add: getEffectiveLimit_def Math_min_def getLimit_cap global_or_Infinity_cap)
  have unset: "connection_cap m c t = None \<and> global_cap m t = None \<longrightarrow>
      getEffectiveLimit m c t = JPosInf"
    by (simp add: eq cap_or_unbounded_def js_min_def)
  have same: "(\<forall>v. connection_cap m c t = Some v \<longrightarrow> truthy v) \<and>
      (\<forall>v. global_cap m t = Some v \<longrightarrow> truthy v) \<longrightarrow>
      getEffectiveLimit m c t = spec_getEffectiveLimit m c t"
    by (auto simp: eq spec_getEffectiveLimit_def cap_or_unbounded_def spec_cap_def
        split: option.splits)
  from eq unset same show ?thesis by blast
qed

theorem C1_effective_limit_witness:
  "getEffectiveLimit
     (setGlobalLimit (setLimit new_SpeedLimitManager ''c1'' ''upload'' (JNumber (JNum 2048)))
        ''upload'' (JNumber (JNum 1024)))
     ''c1'' ''upload'' = JNum 1024
   \<and> spec_getEffectiveLimit
     (setGlobalLimit (setLimit new_SpeedLimitManager ''c1'' ''upload'' (JNumber (JNum 2048)))
        ''upload'' (JNumber (JNum 1024)))
     ''c1'' ''upload'' = JNum 1024
   \<and> getEffectiveLimit new_SpeedLimitManager ''c1'' ''upload'' = JPosInf"
  using C1_effective_limit
          [of "setGlobalLimit (setLimit new_SpeedLimitManager ''c1'' ''upload'' (JNumber (JNum 2048)))
                 ''upload'' (JNumber (JNum 1024))" "''c1''" "''upload''"]
        C1_effective_limit [of new_SpeedLimitManager "''c1''" "''upload''"]
  by (simp add: setGlobalLimit_def setLimit_def new_SpeedLimitManager_def connection_cap_def
      global_cap_def cap_or_unbounded_def js_min_def spec_getEffectiveLimit_def spec_cap_def)

lemma getLimit_setLimit:
  "getLimit (setLimit m c t v) c t = (if truthy v then v else JNumber JPosInf)"
  by (simp add: getLimit_def setLimit_def get_prop_def or_Infinity_def)

lemma global_setGlobalLimit:
  "global_or_Infinity (setGlobalLimit m t v) t = (if truthy v then v else JNumber JPosInf)"
  by (simp add: global_or_Infinity_def setGlobalLimit_def get_prop_def or_Infinity_def)

text \<open>
  Claim C7, as stated, fails at the cap value 0: \<open>setSpeedLimit\<close> stores it, and
  \<open>getSpeedLimits\<close> reads it back as \<open>Infinity\<close>.
\<close>

theorem C7_zero_cap_counterexample:
  "upload (getSpeedLimits
             (setSpeedLimit new_ConnectionManager ''c1'' ''upload'' (JNumber (JNum 0))) ''c1'')
     = JNumber JPosInf
   \<and> upload (getSpeedLimits
             (setSpeedLimit new_ConnectionManager ''c1'' ''upload'' (JNumber (JNum 0))) ''c1'')
     \<noteq> JNumber (JNum 0)"
  by (simp add: getSpeedLimits_def setSpeedLimit_def getLimit_setLimit)

text \<open>
  Claim C7, amended: \<open>setSpeedLimit\<close> followed by \<open>getSpeedLimits\<close> returns, for the
  direction set, exactly the value set when that value is truthy (a non-zero number,
  \<open>Infinity\<close> included), and \<open>Infinity\<close> when it is falsy (0, NaN, null, undefined);
  likewise for \<open>setGlobalSpeedLimit\<close> and the global fields.
\<close>

theorem C7_round_trip:
  "upload (getSpeedLimits (setSpeedLimit cm c ''upload'' v) c) =
     (if truthy v then v else JNumber JPosInf)
   \<and> download (getSpeedLimits (setSpeedLimit cm c ''download'' v) c) =
     (if truthy v then v else JNumber JPosInf)
   \<and> globalUpload (getSpeedLimits (setGlobalSpeedLimit cm ''upload'' v) c) =
     (if truthy v then v else JNumber JPosInf)
   \<and> globalDownload (getSpeedLimits (setGlobalSpeedLimit cm ''download'' v) c) =
     (if truthy v then v else JNumber JPosInf)"
  by (simp add: getSpeedLimits_def setSpeedLimit_def setGlobalSpeedLimit_def getLimit_setLimit
      global_setGlobalLimit)

theorem C7_round_trip_witness:
  "upload (getSpeedLimits
             (setSpeedLimit new_ConnectionManager ''c1'' ''upload'' (JNumber (JNum 1024))) ''c1'')
     = JNumber (JNum 1024)
   \<and> globalDownload (getSpeedLimits
             (setGlobalSpeedLimit new_ConnectionManager ''download'' (JNumber JPosInf)) ''c1'')
     = JNumber JPosInf"
  using C7_round_trip [of new_ConnectionManager "''c1''" "JNumber (JNum 1024)"]
        C7_round_trip [of new_ConnectionManager "''c1''" "JNumber JPosInf"]
  by simp

section \<open>The rate limiter: the elapsed-budget throttle\<close>



text \<open>
  The throttle inside the step callback of an SFTP transfer computes the same delay, from
  the byte count the library passes (which already includes the chunk); it keeps no count
  of its own.
\<close>

lemma step_throttle_agrees:
  assumes "st_speedLimit st = JNum cap" "cap \<noteq> 0" "bytesSentSoFar + c = total_transferred"
  shows "(case fst (spec_throttle (real_of_int (clock1 - st_startTime st) / 1000) cap
                      (real bytesSentSoFar) (real c)) of
            Emit_immediately \<Rightarrow>
              (\<forall>d. fst (step st clock1 clock2 total_transferred total_size) \<noteq> Delay d)
          | Emit_after_seconds d \<Rightarrow>
              fst (step st clock1 clock2 total_transferred total_size) = Delay (JNum (d * 1000)))"
  using assms
  by (auto simp: step_def spec_throttle_def Let_def js_gt_def js_sub_def algebra_simps)

section \<open>The step callback: the reported speed\<close>

text \<open>
  Claim C10: whenever the step callback of an SFTP transfer reports progress, the speed it
  reports is the bytes transferred since the previous report divided by the seconds
  elapsed since the previous report when that time is positive, and 0 otherwise; it is
  always a finite number. The previous report is what the closure remembers: a call that
  reports stores its clock reading and byte count, a call that does not leaves both.
\<close>

theorem C10_reported_speed:
  "(\<forall>p st'. step st clock1 clock2 tt total_size = (Report p, st') \<longrightarrow>
      pr_speed p =
        JNum (if clock2 > st_lastTime st
              then (real tt - real (st_lastTransferred st)) /
                   (real_of_int (clock2 - st_lastTime st) / 1000)
              else 0)
      \<and> st_lastTime st' = clock2 \<and> st_lastTransferred st' = tt)
   \<and> ((\<forall>p. fst (step st clock1 clock2 tt total_size) \<noteq> Report p) \<longrightarrow>
        st_lastTime (snd (step st clock1 clock2 tt total_size)) = st_lastTime st
      \<and> st_lastTransferred (snd (step st clock1 clock2 tt total_size)) = st_lastTransferred st)"
  by (auto simp: step_def Let_def split: if_splits)

lemma step_reports_example:
  "step (new_step \<lparr> opt_chunkSize = JNum 65536, opt_speedLimit = JPosInf,
                    opt_progressCallback = True \<rparr> 1000 5000)
      1500 1500 2000 5000 =
     (Report \<lparr> pr_percent = JNum 40, pr_transferred = 2000, pr_total = 5000,
               pr_speed = JNum 4000, pr_speedLimit = None \<rparr>,
      \<lparr> st_speedLimit = JPosInf, st_fileSize = 5000, st_progressCallback = True,
        st_startTime = 1000, st_lastTime = 1500, st_lastTransferred = 2000,
        st_totalTransferred = 2000 \<rparr>)"
  by (simp add: step_def new_step_def Let_def)

theorem C10_reported_speed_witness:
  "step (new_step \<lparr> opt_chunkSize = JNum 65536, opt_speedLimit = JPosInf,
                    opt_progressCallback = True \<rparr> 1000 5000)
      1500 1500 2000 5000 =
     (Report \<lparr> pr_percent = JNum 40, pr_transferred = 2000, pr_total = 5000,
               pr_speed = JNum 4000, pr_speedLimit = None \<rparr>,
      \<lparr> st_speedLimit = JPosInf, st_fileSize = 5000, st_progressCallback = True,
        st_startTime = 1000, st_lastTime = 1500, st_lastTransferred = 2000,
        st_totalTransferred = 2000 \<rparr>)
   \<and> pr_speed \<lparr> pr_percent = JNum 40, pr_transferred = 2000, pr_total = 5000,
               pr_speed = JNum 4000, pr_speedLimit = None \<rparr> = JNum ((2000 - 0) / (500 / 1000))"
  using C10_reported_speed
          [of "new_step \<lparr> opt_chunkSize = JNum 65536, opt_speedLimit = JPosInf,
                          opt_progressCallback = True \<rparr> 1000 5000" 1500 1500 2000 5000]
        step_reports_example
  by simp

section \<open>The transfer queue: the invariant of the scheduler\<close>

lemma filter_count_mono:
  "(\<And>x. x \<in> set xs \<Longrightarrow> P x \<Longrightarrow> Q x) \<Longrightarrow> length (filter P xs) \<le> length (filter Q xs)"
  by (induction xs) auto

lemma filter_count_one_more:
  "distinct xs \<Longrightarrow> length (filter (\<lambda>x. x = a \<or> P x) xs) \<le> Suc (length (filter P xs))"
proof (induction xs)
  case Nil
  then show ?case by simp
next
  case (Cons x xs)
  show ?case
  proof (cases "x = a")
    case True
    with Cons.prems have "a \<notin> set xs" by simp
    then have "filter (\<lambda>x. x = a \<or> P x) xs = filter P xs"
      by (intro filter_cong) auto
    with True show ?thesis by simp
  next
    case False
    with Cons show ?thesis by simp
  qed
qed

lemma filter_count_removeAll:
  "length (filter P (removeAll k xs)) \<le> length (filter P xs)"
  by (induction xs) auto

lemma find_transfer_Some:
  assumes "queue_inv tq" "find_transfer tq i = Some a"
  shows "a = i \<and> a \<in> set (queue tq) \<and> (\<exists>t. objs tq a = Some t)"
proof -
  from assms(2) have "a \<in> set (queue tq)"
    and "(case objs tq a of None \<Rightarrow> False | Some t \<Rightarrow> item_id t = i)"
    by (auto simp: find_transfer_def find_Some_iff)
  with assms(1) show ?thesis
    by (auto simp: queue_inv_def split: option.splits)
qed

lemma is_active_fields [simp]:
  "is_active (tq\<lparr>sent := x1\<rparr>) = is_active tq"
  "is_active (tq\<lparr>invocations := x2\<rparr>) = is_active tq"
  "is_active (tq\<lparr>timers := x3\<rparr>) = is_active tq"
  "is_active (tq\<lparr>tq_isPaused := x4\<rparr>) = is_active tq"
  "is_active (tq\<lparr>activeTransfers := x5\<rparr>) = is_active tq"
  "is_active (tq\<lparr>queue := x6\<rparr>) = is_active tq"
  "is_active (tq\<lparr>queueId := x7\<rparr>) = is_active tq"
  by (simp_all add: is_active_def status_of_def fun_eq_iff)

lemma inv_fields [simp]:
  "queue_inv (tq\<lparr>sent := x1\<rparr>) = queue_inv tq"
  "queue_inv (tq\<lparr>invocations := x2\<rparr>) = queue_inv tq"
  "queue_inv (tq\<lparr>timers := x3\<rparr>) = queue_inv tq"
  "queue_inv (tq\<lparr>tq_isPaused := x4\<rparr>) = queue_inv tq"
  by (simp_all add: queue_inv_def)

lemma queue_inv_cong:
  assumes "objs tq' = objs tq" "queue tq' = queue tq" "activeTransfers tq' = activeTransfers tq"
    "maxConcurrent tq' = maxConcurrent tq" "queueId tq' = queueId tq"
  shows "queue_inv tq' = queue_inv tq"
proof -
  have "is_active tq' = is_active tq"
    using assms(1) by (simp add: is_active_def status_of_def fun_eq_iff)
  with assms show ?thesis by (simp add: queue_inv_def)
qed

text \<open>Overwriting a stored item without making it active.\<close>

lemma inv_store:
  assumes "queue_inv tq" "objs tq a = Some t" "item_id t' = item_id t"
    and "status t' = St_active \<Longrightarrow> status t = St_active"
  shows "queue_inv (tq\<lparr>objs := (objs tq)(a \<mapsto> t')\<rparr>)"
proof -
  let ?tq = "tq\<lparr>objs := (objs tq)(a \<mapsto> t')\<rparr>"
  have act: "\<And>x. is_active ?tq x \<Longrightarrow> is_active tq x"
    using assms(2,4) by (auto simp: is_active_def status_of_def split: if_splits)
  have "length (filter (is_active ?tq) (activeTransfers tq)) \<le> length (filter (is_active tq) (activeTransfers tq))"
    by (rule filter_count_mono) (rule act)
  with assms(1,2,3) act show ?thesis
    unfolding queue_inv_def by (auto simp: dom_def)
qed

lemma inv_delete:
  assumes "queue_inv tq" "\<not> is_active tq k"
  shows "queue_inv (tq\<lparr>activeTransfers := map_delete (activeTransfers tq) k\<rparr>)"
proof -
  let ?tq = "tq\<lparr>activeTransfers := map_delete (activeTransfers tq) k\<rparr>"
  have same: "is_active ?tq = is_active tq" by simp
  have "length (filter (is_active tq) (removeAll k (activeTransfers tq))) \<le>
        length (filter (is_active tq) (activeTransfers tq))"
    by (rule filter_count_removeAll)
  with assms same show ?thesis
    unfolding queue_inv_def by (auto simp: map_delete_def distinct_removeAll)
qed

lemma is_active_store:
  "is_active (tq\<lparr>objs := (objs tq)(a \<mapsto> t')\<rparr>) x =
     (if x = a then status t' = St_active else is_active tq x)"
  by (simp add: is_active_def status_of_def)

lemma inv_processQueue:
  assumes "queue_inv tq"
  shows "queue_inv (processQueue now tq)"
proof (cases "processQueue now tq = tq")
  case True
  with assms show ?thesis by simp
next
  case False
  then obtain a t where
    room: "length (filter (is_active tq) (activeTransfers tq)) < maxConcurrent tq" and
    found: "List.find (eligible tq) (queue tq) = Some a" and
    obj: "objs tq a = Some t" and
    res: "processQueue now tq =
            tq\<lparr>objs := (objs tq)(a \<mapsto> t\<lparr>status := St_active, item_startTime := Some now\<rparr>),
               activeTransfers := map_set (activeTransfers tq) (item_id t),
               invocations := invocations tq @ [a]\<rparr>"
    by (auto simp: processQueue_def Let_def split: if_splits option.splits)
  from assms obj have ida: "item_id t = a" by (simp add: queue_inv_def)
  from found have "eligible tq a" by (auto simp: find_Some_iff)
  with obj have notact: "\<not> is_active tq a"
    by (simp add: eligible_def is_active_def status_of_def)
  let ?ks = "map_set (activeTransfers tq) a"
  let ?tq = "tq\<lparr>objs := (objs tq)(a \<mapsto> t\<lparr>status := St_active, item_startTime := Some now\<rparr>),
               activeTransfers := ?ks\<rparr>"
  have dist: "distinct ?ks"
    using assms by (simp add: map_set_def queue_inv_def)
  have mem: "a \<in> set ?ks" by (simp add: map_set_def )
  have sub: "set (activeTransfers tq) \<subseteq> set ?ks" by (auto simp: map_set_def)
  have act: "is_active ?tq = (\<lambda>x. x = a \<or> is_active tq x)"
    by (auto simp: is_active_def status_of_def fun_eq_iff)
  have "length (filter (is_active tq) ?ks) = length (filter (is_active tq) (activeTransfers tq))"
    using notact by (simp add: map_set_def)
  with filter_count_one_more [OF dist, of a "is_active tq"] room
  have cnt: "length (filter (\<lambda>x. x = a \<or> is_active tq x) ?ks) \<le> maxConcurrent tq" by simp
  have "queue_inv ?tq"
    unfolding queue_inv_def act
    using assms obj ida dist mem sub cnt
    by (auto simp: queue_inv_def dom_def)
  with res ida show ?thesis by simp
qed

lemma inv_push:
  assumes "queue_inv tq"
  shows "queue_inv (snd (push_transfer tr tq))"
proof -
  let ?i = "Suc (queueId tq)"
  obtain t' where
    res: "snd (push_transfer tr tq) =
            tq\<lparr>queueId := ?i, objs := (objs tq)(?i \<mapsto> t'), queue := queue tq @ [?i]\<rparr>"
    and idt: "item_id t' = ?i" and st: "status t' = St_queued"
    by (simp add: push_transfer_def Let_def)
  have fresh: "objs tq ?i = None"
  proof (cases "objs tq ?i")
    case (Some t)
    with assms have "?i \<le> queueId tq" unfolding queue_inv_def by blast
    then show ?thesis by simp
  qed simp
  have below: "\<forall>x\<in>set (queue tq). x < ?i"
  proof
    fix x assume "x \<in> set (queue tq)"
    with assms obtain t where "objs tq x = Some t" unfolding queue_inv_def by blast
    with assms have "x \<le> queueId tq" unfolding queue_inv_def by blast
    then show "x < ?i" by simp
  qed
  let ?tq = "tq\<lparr>queueId := ?i, objs := (objs tq)(?i \<mapsto> t'), queue := queue tq @ [?i]\<rparr>"
  have act: "is_active ?tq = is_active tq"
    using fresh st by (auto simp: is_active_def status_of_def fun_eq_iff)
  have c1: "\<forall>a t. objs ?tq a = Some t \<longrightarrow> item_id t = a \<and> a \<le> queueId ?tq"
    using assms idt by (auto simp: queue_inv_def le_SucI)
  have c2: "set (queue ?tq) \<subseteq> dom (objs ?tq)"
    using assms by (auto simp: queue_inv_def)
  have c3: "sorted_wrt (<) (queue ?tq)"
    using assms below by (simp add: queue_inv_def sorted_wrt_append)
  have c4: "distinct (activeTransfers ?tq)
      \<and> (\<forall>a. is_active tq a \<longrightarrow> a \<in> set (activeTransfers ?tq))
      \<and> length (filter (is_active tq) (activeTransfers ?tq)) \<le> maxConcurrent ?tq"
    using assms by (simp add: queue_inv_def)
  have "queue_inv ?tq"
    unfolding queue_inv_def act using c1 c2 c3 c4 by blast
  with res show ?thesis by simp
qed

lemma inv_addTransfer: "queue_inv tq \<Longrightarrow> queue_inv (snd (addTransfer now tr tq))"
  by (simp add: addTransfer_def split_def Let_def inv_processQueue inv_push)

lemma inv_pauseTransfer:
  assumes "queue_inv tq"
  shows "queue_inv (pauseTransfer i tq)"
  using assms
  by (auto simp: pauseTransfer_def split: option.splits intro!: inv_store)

lemma inv_resumeTransfer:
  assumes "queue_inv tq"
  shows "queue_inv (resumeTransfer now i tq)"
  using assms
  by (auto simp: resumeTransfer_def split: option.splits intro!: inv_processQueue inv_store)

lemma inv_cancelTransfer:
  assumes "queue_inv tq"
  shows "queue_inv (cancelTransfer now i tq)"
proof (cases "find_transfer tq i")
  case None
  with assms show ?thesis by (simp add: cancelTransfer_def)
next
  case (Some a)
  from find_transfer_Some [OF assms Some] obtain t where ai: "a = i" and obj: "objs tq a = Some t"
    by blast
  let ?tq1 = "tq\<lparr>objs := (objs tq)(a \<mapsto> t\<lparr>status := St_cancelled\<rparr>)\<rparr>"
  let ?tq2 = "?tq1\<lparr>activeTransfers := map_delete (activeTransfers ?tq1) i\<rparr>"
  have i1: "queue_inv ?tq1" using assms obj by (intro inv_store) auto
  have "\<not> is_active ?tq1 i" using ai by (simp add: is_active_store)
  with i1 have i2: "queue_inv ?tq2" by (rule inv_delete)
  let ?tq3 = "tq\<lparr>sent := (if status t = St_active then sent tq @ [Cancel_transfer i] else sent tq),
                  objs := (objs tq)(a \<mapsto> t\<lparr>status := St_cancelled\<rparr>),
                  activeTransfers := map_delete (activeTransfers tq) i\<rparr>"
  have "queue_inv ?tq3 = queue_inv ?tq2" by (rule queue_inv_cong) simp_all
  with i2 have "queue_inv (processQueue now ?tq3)" by (intro inv_processQueue) simp
  moreover have "cancelTransfer now i tq = processQueue now ?tq3"
    using Some obj by (simp add: cancelTransfer_def)
  ultimately show ?thesis by simp
qed

lemma inv_finish:
  assumes "queue_inv tq"
  shows "queue_inv (finish a r tq)"
proof (cases "finish a r tq = tq")
  case True
  with assms show ?thesis by simp
next
  case False
  then obtain t where obj: "objs tq a = Some t" and mem: "List.member (invocations tq) a"
    by (auto simp: finish_def split: if_splits option.splits)
  define t' where "t' = (case r of
                         Succeeded \<Rightarrow> t\<lparr>status := St_completed, progress := JNum 100\<rparr>
                       | Succeeded_refresh_threw msg \<Rightarrow>
                           t\<lparr>status := St_error, progress := JNum 100, item_error := Some msg\<rparr>
                       | Failed msg \<Rightarrow> t\<lparr>status := St_error, item_error := Some msg\<rparr>)"
  have st: "status t' \<noteq> St_active" and idt: "item_id t' = item_id t"
    by (auto simp: t'_def split: outcome.splits)
  from assms obj have ida: "item_id t = a" by (simp add: queue_inv_def)
  let ?tq1 = "tq\<lparr>objs := (objs tq)(a \<mapsto> t')\<rparr>"
  have i1: "queue_inv ?tq1" using assms obj idt st by (intro inv_store) auto
  have "\<not> is_active ?tq1 a" using st by (simp add: is_active_store)
  from inv_delete [OF i1 this]
  have "queue_inv (?tq1\<lparr>activeTransfers := map_delete (activeTransfers tq) a\<rparr>)" by simp
  moreover have "finish a r tq = ?tq1\<lparr>activeTransfers := map_delete (activeTransfers tq) a,
                   invocations := remove1 a (invocations tq), timers := timers tq + 1\<rparr>"
    using obj mem ida by (simp add: finish_def t'_def Let_def)
  ultimately show ?thesis by simp
qed

lemma inv_timer_fires: "queue_inv tq \<Longrightarrow> queue_inv (timer_fires now tq)"
  by (simp add: timer_fires_def inv_processQueue)

lemma inv_clearCompleted: "queue_inv tq \<Longrightarrow> queue_inv (clearCompleted tq)"
  unfolding queue_inv_def clearCompleted_def
  by (auto simp: sorted_wrt_filter is_active_def status_of_def)

lemma inv_transfer_progress: "queue_inv tq \<Longrightarrow> queue_inv (transfer_progress i p s tq)"
  by (auto simp: transfer_progress_def split: option.splits intro!: inv_store)

lemma foldl_preserves:
  "(\<And>s x. I s \<Longrightarrow> I (f s x)) \<Longrightarrow> I s \<Longrightarrow> I (foldl f s xs)"
  by (induction xs arbitrary: s) auto

lemma inv_pauseAll: "queue_inv tq \<Longrightarrow> queue_inv (pauseAll tq)"
  unfolding pauseAll_def
  by (rule foldl_preserves) (auto simp: inv_pauseTransfer split: option.splits)

lemma inv_resumeAll: "queue_inv tq \<Longrightarrow> queue_inv (resumeAll now tq)"
  unfolding resumeAll_def
  by (rule foldl_preserves) (auto simp: inv_resumeTransfer split: option.splits)

lemma inv_apply_event: "queue_inv tq \<Longrightarrow> queue_inv (apply_event tq e)"
  by (cases e)
    (simp_all add: inv_addTransfer inv_pauseTransfer inv_resumeTransfer inv_cancelTransfer
      inv_pauseAll inv_resumeAll inv_clearCompleted inv_finish inv_timer_fires inv_transfer_progress)

lemma inv_run: "queue_inv tq \<Longrightarrow> queue_inv (run tq evs)"
  unfolding run_def by (rule foldl_preserves) (rule inv_apply_event)

lemma inv_new: "queue_inv (new_TransferQueue\<lparr>maxConcurrent := k\<rparr>)"
  by (simp add: queue_inv_def new_TransferQueue_def is_active_def status_of_def)

lemma maxConcurrent_processQueue [simp]: "maxConcurrent (processQueue now tq) = maxConcurrent tq"
  by (simp add: processQueue_def Let_def split: option.splits)

lemma maxConcurrent_pauseTransfer [simp]: "maxConcurrent (pauseTransfer i tq) = maxConcurrent tq"
  by (simp add: pauseTransfer_def split: option.splits)

lemma maxConcurrent_resumeTransfer [simp]:
  "maxConcurrent (resumeTransfer now i tq) = maxConcurrent tq"
  by (simp add: resumeTransfer_def split: option.splits)

lemma maxConcurrent_foldl:
  "(\<And>s x. maxConcurrent (f s x) = maxConcurrent s) \<Longrightarrow>
     maxConcurrent (foldl f s xs) = maxConcurrent s"
  by (induction xs arbitrary: s) auto

lemma maxConcurrent_apply_event: "maxConcurrent (apply_event tq e) = maxConcurrent tq"
proof (cases e)
  case PauseAll
  have "maxConcurrent (pauseAll tq) = maxConcurrent (tq\<lparr>tq_isPaused := True\<rparr>)"
    unfolding pauseAll_def by (rule maxConcurrent_foldl) (simp split: option.splits)
  with PauseAll show ?thesis by simp
next
  case (ResumeAll now)
  have "maxConcurrent (resumeAll now tq) = maxConcurrent (tq\<lparr>tq_isPaused := False\<rparr>)"
    unfolding resumeAll_def by (rule maxConcurrent_foldl) (simp split: option.splits)
  with ResumeAll show ?thesis by simp
qed (simp_all add: addTransfer_def push_transfer_def Let_def cancelTransfer_def finish_def
      timer_fires_def clearCompleted_def transfer_progress_def split: option.splits)

lemma maxConcurrent_run: "maxConcurrent (run tq evs) = maxConcurrent tq"
  unfolding run_def by (induction evs arbitrary: tq) (simp_all add: maxConcurrent_apply_event)

lemma active_count_le:
  assumes "queue_inv tq"
  shows "active_count tq \<le> maxConcurrent tq"
proof -
  from assms have dq: "distinct (queue tq)" and da: "distinct (activeTransfers tq)"
    by (simp_all add: queue_inv_def strict_sorted_iff)
  from assms have sub: "set (filter (is_active tq) (queue tq)) \<subseteq>
      set (filter (is_active tq) (activeTransfers tq))"
    by (auto simp: queue_inv_def)
  have "active_count tq = card (set (filter (is_active tq) (queue tq)))"
    unfolding active_count_def using dq distinct_card [of "filter (is_active tq) (queue tq)"]
    by simp
  also have "\<dots> \<le> card (set (filter (is_active tq) (activeTransfers tq)))"
    using sub by (intro card_mono) simp_all
  also have "\<dots> = length (filter (is_active tq) (activeTransfers tq))"
    using da distinct_card [of "filter (is_active tq) (activeTransfers tq)"] by simp
  also have "\<dots> \<le> maxConcurrent tq" using assms by (simp add: queue_inv_def)
  finally show ?thesis .
qed

text \<open>
  Claim C2: after any sequence of events on a queue created with \<open>maxConcurrent = k\<close>
  (calls of \<open>addTransfer\<close>, and also pause, resume, cancel, clear, returning transfers,
  timers and progress messages), the number of items whose status is \<open>active\<close> is at
  most \<open>k\<close>.
\<close>

theorem C2_active_bounded:
  "active_count (run (new_TransferQueue\<lparr>maxConcurrent := k\<rparr>) evs) \<le> k"
  using active_count_le [OF inv_run [OF inv_new, of k evs]]
  by (simp add: maxConcurrent_run)

text \<open>
  Claim C2, at the specification's scenario: five uploads enqueued with
  \<open>maxConcurrent = 3\<close> leave exactly three items active.
\<close>

theorem C2_active_bounded_witness:
  "active_count (run (new_TransferQueue\<lparr>maxConcurrent := 3\<rparr>) five_uploads) = 3
   \<and> active_count (run (new_TransferQueue\<lparr>maxConcurrent := 3\<rparr>) five_uploads) \<le> 3"
  using C2_active_bounded [of 3 five_uploads]
  by (simp add: tq_eval)

section \<open>The transfer queue: the scheduling pass\<close>

lemma stored_processQueue: "invocations_stored tq \<Longrightarrow> invocations_stored (processQueue now tq)"
  by (auto simp: invocations_stored_def processQueue_def Let_def split: option.splits)

lemma stored_push: "invocations_stored tq \<Longrightarrow> invocations_stored (snd (push_transfer tr tq))"
  by (auto simp: invocations_stored_def push_transfer_def Let_def)

lemma stored_pauseTransfer: "invocations_stored tq \<Longrightarrow> invocations_stored (pauseTransfer i tq)"
  by (auto simp: invocations_stored_def pauseTransfer_def split: option.splits)

lemma stored_resumeTransfer:
  "invocations_stored tq \<Longrightarrow> invocations_stored (resumeTransfer now i tq)"
  by (auto simp: resumeTransfer_def split: option.splits intro!: stored_processQueue)
     (auto simp: invocations_stored_def)

lemma stored_cancelTransfer:
  "invocations_stored tq \<Longrightarrow> invocations_stored (cancelTransfer now i tq)"
  by (auto simp: cancelTransfer_def split: option.splits intro!: stored_processQueue)
     (auto simp: invocations_stored_def)

lemma stored_finish: "invocations_stored tq \<Longrightarrow> invocations_stored (finish a r tq)"
  by (auto simp: invocations_stored_def finish_def Let_def split: option.splits
      dest: notin_set_remove1)

lemma stored_timer_fires: "invocations_stored tq \<Longrightarrow> invocations_stored (timer_fires now tq)"
  by (auto simp: timer_fires_def intro!: stored_processQueue) (auto simp: invocations_stored_def)

lemma stored_apply_event: "invocations_stored tq \<Longrightarrow> invocations_stored (apply_event tq e)"
proof (cases e)
  case PauseAll
  assume s: "invocations_stored tq"
  have "invocations_stored (pauseAll tq)"
    unfolding pauseAll_def
  proof (rule foldl_preserves)
    show "invocations_stored (tq\<lparr>tq_isPaused := True\<rparr>)"
      using s by (simp add: invocations_stored_def)
  qed (simp add: stored_pauseTransfer split: option.splits)
  with PauseAll show ?thesis by simp
next
  case (ResumeAll now)
  assume s: "invocations_stored tq"
  have "invocations_stored (resumeAll now tq)"
    unfolding resumeAll_def
  proof (rule foldl_preserves)
    show "invocations_stored (tq\<lparr>tq_isPaused := False\<rparr>)"
      using s by (simp add: invocations_stored_def)
  qed (simp add: stored_resumeTransfer split: option.splits)
  with ResumeAll show ?thesis by simp
next
  case ClearCompleted
  assume "invocations_stored tq"
  with ClearCompleted show ?thesis by (simp add: invocations_stored_def clearCompleted_def)
next
  case (Progress i p s)
  assume "invocations_stored tq"
  with Progress show ?thesis
    by (auto simp: invocations_stored_def transfer_progress_def split: option.splits)
next
  case (AddTransfer now tr)
  assume "invocations_stored tq"
  with AddTransfer show ?thesis
    by (simp add: addTransfer_def split_def Let_def stored_processQueue stored_push)
qed (simp_all add: stored_pauseTransfer stored_resumeTransfer stored_cancelTransfer
      stored_finish stored_timer_fires)

lemma stored_run: "invocations_stored tq \<Longrightarrow> invocations_stored (run tq evs)"
  unfolding run_def by (rule foldl_preserves) (rule stored_apply_event)

lemma stored_new: "invocations_stored (new_TransferQueue\<lparr>maxConcurrent := k\<rparr>)"
  by (simp add: invocations_stored_def new_TransferQueue_def)

lemma find_least:
  "sorted_wrt (<) xs \<Longrightarrow> List.find P xs = Some a \<Longrightarrow> b \<in> set xs \<Longrightarrow> P b \<Longrightarrow> a \<le> (b::nat)"
proof (induction xs)
  case Nil
  then show ?case by simp
next
  case (Cons x xs)
  show ?case
  proof (cases "P x")
    case True
    with Cons.prems have "a = x" by simp
    with Cons.prems show ?thesis by auto
  next
    case False
    with Cons.prems have "List.find P xs = Some a" "b \<in> set xs" "sorted_wrt (<) xs" by auto
    with Cons.IH Cons.prems(4) show ?thesis by simp
  qed
qed

lemma find_own_id: "i \<in> set xs \<Longrightarrow> List.find (\<lambda>a. a = i) xs = Some i"
  by (induction xs) auto

lemma find_transfer_queued:
  assumes "queue_inv tq" "i \<in> set (queue tq)"
  shows "find_transfer tq i = Some i"
proof -
  have "\<And>a. a \<in> set (queue tq) \<Longrightarrow>
      (case objs tq a of None \<Rightarrow> False | Some t \<Rightarrow> item_id t = i) = (a = i)"
    using assms(1) by (fastforce simp: queue_inv_def dom_def split: option.splits)
  then have "find_transfer tq i = List.find (\<lambda>a. a = i) (queue tq)"
    unfolding find_transfer_def by (intro find_cong) simp_all
  with assms(2) show ?thesis by (simp add: find_own_id)
qed

lemma pass_starts_earliest:
  assumes "queue_inv tq" "processQueue now tq \<noteq> tq"
  shows "\<exists>a t. a \<in> set (queue tq) \<and> objs tq a = Some t \<and> item_id t = a
            \<and> status t = St_queued \<and> \<not> isPaused t
            \<and> (\<forall>b\<in>set (queue tq). eligible tq b \<longrightarrow> a \<le> b)
            \<and> processQueue now tq =
                 tq\<lparr>objs := (objs tq)(a \<mapsto> t\<lparr>status := St_active, item_startTime := Some now\<rparr>),
                    activeTransfers := map_set (activeTransfers tq) a,
                    invocations := invocations tq @ [a]\<rparr>"
proof -
  from assms(2) obtain a t where
    found: "List.find (eligible tq) (queue tq) = Some a" and
    obj: "objs tq a = Some t" and
    res: "processQueue now tq =
            tq\<lparr>objs := (objs tq)(a \<mapsto> t\<lparr>status := St_active, item_startTime := Some now\<rparr>),
               activeTransfers := map_set (activeTransfers tq) (item_id t),
               invocations := invocations tq @ [a]\<rparr>"
    by (auto simp: processQueue_def Let_def split: if_splits option.splits)
  from assms(1) obj have ida: "item_id t = a" by (simp add: queue_inv_def)
  from found have mem: "a \<in> set (queue tq)" and el: "eligible tq a"
    by (auto simp: find_Some_iff)
  from el obj have st: "status t = St_queued \<and> \<not> isPaused t" by (simp add: eligible_def)
  from assms(1) have srt: "sorted_wrt (<) (queue tq)" by (simp add: queue_inv_def)
  have least: "\<forall>b\<in>set (queue tq). eligible tq b \<longrightarrow> a \<le> b"
    using find_least [OF srt found] by blast
  from mem obj ida st least res show ?thesis by auto
qed

text \<open>
  Claim C6: in every state the queue can reach, a scheduling pass that starts a transfer
  starts the item of the queue with the least id (the earliest enqueued) among those that
  are \<open>queued\<close> and not paused, marks it \<open>active\<close> and records the clock reading as
  its start time. A pass runs at the end of \<open>addTransfer\<close>, of \<open>resumeTransfer\<close> on a
  paused item and of \<open>cancelTransfer\<close>; and a transfer that returns (completed or error)
  sets a timer, whose firing runs a pass.
\<close>

theorem C6_scheduling_pass:
  assumes "tq = run (new_TransferQueue\<lparr>maxConcurrent := k\<rparr>) evs"
  shows "(processQueue now tq \<noteq> tq \<longrightarrow>
           (\<exists>a t. a \<in> set (queue tq) \<and> objs tq a = Some t \<and> item_id t = a
              \<and> status t = St_queued \<and> \<not> isPaused t
              \<and> (\<forall>b\<in>set (queue tq). eligible tq b \<longrightarrow> a \<le> b)
              \<and> processQueue now tq =
                   tq\<lparr>objs := (objs tq)(a \<mapsto> t\<lparr>status := St_active, item_startTime := Some now\<rparr>),
                      activeTransfers := map_set (activeTransfers tq) a,
                      invocations := invocations tq @ [a]\<rparr>))
       \<and> addTransfer now tr tq = (queueId tq + 1, processQueue now (snd (push_transfer tr tq)))
       \<and> (\<forall>t. i \<in> set (queue tq) \<and> objs tq i = Some t \<and> status t = St_paused \<longrightarrow>
            resumeTransfer now i tq =
              processQueue now (tq\<lparr>objs := (objs tq)(i \<mapsto> t\<lparr>isPaused := False, status := St_queued\<rparr>)\<rparr>))
       \<and> (\<forall>t. i \<in> set (queue tq) \<and> objs tq i = Some t \<longrightarrow>
            cancelTransfer now i tq =
              processQueue now
                (tq\<lparr>sent := (if status t = St_active then sent tq @ [Cancel_transfer i] else sent tq),
                    objs := (objs tq)(i \<mapsto> t\<lparr>status := St_cancelled\<rparr>),
                    activeTransfers := map_delete (activeTransfers tq) i\<rparr>))
       \<and> (a \<in> set (invocations tq) \<longrightarrow>
            (status_of (finish a r tq) a = Some St_completed \<or> status_of (finish a r tq) a = Some St_error)
            \<and> timers (finish a r tq) = Suc (timers tq))
       \<and> (0 < timers tq \<longrightarrow> timer_fires now tq = processQueue now (tq\<lparr>timers := timers tq - 1\<rparr>))"
proof -
  have inv: "queue_inv tq" unfolding assms by (rule inv_run [OF inv_new])
  have sto: "invocations_stored tq" unfolding assms by (rule stored_run [OF stored_new])
  have p1: "processQueue now tq \<noteq> tq \<longrightarrow>
           (\<exists>a t. a \<in> set (queue tq) \<and> objs tq a = Some t \<and> item_id t = a
              \<and> status t = St_queued \<and> \<not> isPaused t
              \<and> (\<forall>b\<in>set (queue tq). eligible tq b \<longrightarrow> a \<le> b)
              \<and> processQueue now tq =
                   tq\<lparr>objs := (objs tq)(a \<mapsto> t\<lparr>status := St_active, item_startTime := Some now\<rparr>),
                      activeTransfers := map_set (activeTransfers tq) a,
                      invocations := invocations tq @ [a]\<rparr>)"
    using pass_starts_earliest [OF inv] by blast
  have p2: "addTransfer now tr tq = (queueId tq + 1, processQueue now (snd (push_transfer tr tq)))"
    by (simp add: addTransfer_def push_transfer_def Let_def)
  have p3: "\<forall>t. i \<in> set (queue tq) \<and> objs tq i = Some t \<and> status t = St_paused \<longrightarrow>
            resumeTransfer now i tq =
              processQueue now (tq\<lparr>objs := (objs tq)(i \<mapsto> t\<lparr>isPaused := False, status := St_queued\<rparr>)\<rparr>)"
    using find_transfer_queued [OF inv, of i] by (auto simp: resumeTransfer_def)
  have p4: "\<forall>t. i \<in> set (queue tq) \<and> objs tq i = Some t \<longrightarrow>
            cancelTransfer now i tq =
              processQueue now
                (tq\<lparr>sent := (if status t = St_active then sent tq @ [Cancel_transfer i] else sent tq),
                    objs := (objs tq)(i \<mapsto> t\<lparr>status := St_cancelled\<rparr>),
                    activeTransfers := map_delete (activeTransfers tq) i\<rparr>)"
    using find_transfer_queued [OF inv, of i] by (auto simp: cancelTransfer_def)
  have p5: "a \<in> set (invocations tq) \<longrightarrow>
            (status_of (finish a r tq) a = Some St_completed \<or> status_of (finish a r tq) a = Some St_error)
            \<and> timers (finish a r tq) = Suc (timers tq)"
  proof
    assume mem: "a \<in> set (invocations tq)"
    with sto obtain t where obj: "objs tq a = Some t" unfolding invocations_stored_def by blast
    with mem show "(status_of (finish a r tq) a = Some St_completed \<or> status_of (finish a r tq) a = Some St_error)
            \<and> timers (finish a r tq) = Suc (timers tq)"
      by (cases r) (simp_all add: finish_def status_of_def Let_def)
  qed
  have p6: "0 < timers tq \<longrightarrow> timer_fires now tq = processQueue now (tq\<lparr>timers := timers tq - 1\<rparr>)"
    by (simp add: timer_fires_def)
  from p1 p2 p3 p4 p5 p6 show ?thesis by blast
qed

theorem C6_scheduling_pass_witness:
  "status_of (processQueue 7 (run (new_TransferQueue\<lparr>maxConcurrent := 1\<rparr>) example_events)) 2
     = Some St_active
   \<and> map_option item_startTime
        (objs (processQueue 7 (run (new_TransferQueue\<lparr>maxConcurrent := 1\<rparr>) example_events)) 2)
     = Some (Some 7)
   \<and> status_of (resumeTransfer 7 1 (run (new_TransferQueue\<lparr>maxConcurrent := 1\<rparr>) example_events)) 1
     = Some St_active
   \<and> status_of (cancelTransfer 7 1 (run (new_TransferQueue\<lparr>maxConcurrent := 1\<rparr>) example_events)) 2
     = Some St_active
   \<and> timers (finish 1 Succeeded (run (new_TransferQueue\<lparr>maxConcurrent := 1\<rparr>) example_events)) = 1
   \<and> status_of (timer_fires 8 (run (new_TransferQueue\<lparr>maxConcurrent := 1\<rparr>)
                                   (example_events @ [Finish 1 Succeeded]))) 2
     = Some St_active"
  using C6_scheduling_pass
          [where k = 1 and evs = example_events and now = 7 and tr = "example_upload ''c''"
             and i = 1 and a = 1 and r = Succeeded, OF refl]
        C6_scheduling_pass
          [where k = 1 and evs = "example_events @ [Finish 1 Succeeded]" and now = 8
             and tr = "example_upload ''c''" and i = 1 and a = 1 and r = Succeeded, OF refl]
  by (simp add: tq_eval)

section \<open>The transfer queue: status changes outside the state machine\<close>

text \<open>
  Claim C3 at its failing inputs. An upload is enqueued and started (id 1). When it has
  completed, \<open>cancelTransfer\<close> still turns it into \<open>cancelled\<close>: unlike
  \<open>pauseTransfer\<close> and \<open>resumeTransfer\<close>, \<open>cancelTransfer\<close> does not look at the
  status. And when it is cancelled or paused while it runs, the return of the transfer
  overwrites \<open>cancelled\<close> or \<open>paused\<close> by \<open>completed\<close>. None of the three is an
  edge of the state machine.
\<close>

theorem C3_status_changes_off_the_state_machine:
  "status_of (run new_TransferQueue
       [AddTransfer 0 (example_upload ''a''), Finish 1 Succeeded]) 1 = Some St_completed
   \<and> status_of (run new_TransferQueue
       [AddTransfer 0 (example_upload ''a''), Finish 1 Succeeded, CancelTransfer 9 1]) 1
       = Some St_cancelled
   \<and> status_of (run new_TransferQueue
       [AddTransfer 0 (example_upload ''a''), CancelTransfer 5 1]) 1 = Some St_cancelled
   \<and> status_of (run new_TransferQueue
       [AddTransfer 0 (example_upload ''a''), CancelTransfer 5 1, Finish 1 Succeeded]) 1
       = Some St_completed
   \<and> status_of (run new_TransferQueue
       [AddTransfer 0 (example_upload ''a''), PauseTransfer 1]) 1 = Some St_paused
   \<and> status_of (run new_TransferQueue
       [AddTransfer 0 (example_upload ''a''), PauseTransfer 1, Finish 1 Succeeded]) 1
       = Some St_completed"
  by (simp add: tq_eval)

section \<open>The session registry: transfers, unknown ids, disconnect\<close>

text \<open>
  Claim C4 at its failing input. On an FTP or FTPS session, with a global cap of 1024
  bytes per second in force, \<open>downloadFile\<close> and \<open>uploadFile\<close> hand the transfer to
  the library without a callback, although a progress callback was passed: nothing is
  throttled and nothing is reported. On an SFTP session the same download runs the step
  callback on every chunk; there, the chunk that is ahead of the budget is delayed and
  not reported.
\<close>

theorem C4_ftp_transfer_without_callback:
  "downloadFile (example_session ''ftp'') ''c1'' ''/srv/a'' ''/home/u/a'' True =
     Inr (Ftp_downloadTo ''/home/u/a'' ''/srv/a'')
   \<and> per_chunk (Ftp_downloadTo ''/home/u/a'' ''/srv/a'') 0 4096 example_chunks = []
   \<and> uploadFile (example_session ''ftps'') ''c1'' ''/home/u/a'' ''/srv/a'' True True =
     Inr (Ftp_uploadFrom ''/home/u/a'' ''/srv/a'')
   \<and> per_chunk (Ftp_uploadFrom ''/home/u/a'' ''/srv/a'') 0 4096 example_chunks = []
   \<and> getEffectiveLimit (speedLimitManager (example_session ''ftp'')) ''c1'' ''download''
       = JNum 1024
   \<and> (case downloadFile (example_session ''sftp'') ''c1'' ''/srv/a'' ''/home/u/a'' True of
         Inl e \<Rightarrow> []
       | Inr call \<Rightarrow> per_chunk call 0 4096 example_chunks) =
       [Delay (JNum 1000),
        Report \<lparr> pr_percent = JNum 100, pr_transferred = 4096, pr_total = 4096,
                 pr_speed = JNum 1024, pr_speedLimit = Some (JNum 1024) \<rparr>]"
  by (simp add: cm_eval downloadFile_def uploadFile_def chunk_size_for_def example_chunks_def
      new_step_def step_def Let_def js_gt_def js_sub_def)

text \<open>
  Claim C9 at its failing input. The session \<open>c1\<close> has a per-connection upload cap of
  2048. \<open>disconnect\<close> succeeds and removes the session, and the cap is still in the
  registry: \<open>disconnect\<close> never calls \<open>removeConnection\<close>, which would evict it.
\<close>

theorem C9_disconnect_keeps_caps:
  "(case disconnect (example_session ''sftp'') ''c1'' of
      Inl e \<Rightarrow> False
    | Inr (call, cm') \<Rightarrow>
        call = Ssh_end
      \<and> connections cm' ''c1'' = None
      \<and> connection_cap (speedLimitManager cm') ''c1'' ''upload'' = Some (JNumber (JNum 2048))
      \<and> upload (getSpeedLimits cm' ''c1'') = JNumber (JNum 2048)
      \<and> connection_cap (removeConnection (speedLimitManager cm') ''c1'') ''c1'' ''upload''
          = None)"
  by (simp add: cm_eval disconnect_def connection_cap_def removeConnection_def)

lemma unknown_session_fails:
  assumes "connections cm c = None"
  shows "disconnect cm c = Inl NotFound
    \<and> listDirectory cm c p = Inl NotFound
    \<and> downloadFile cm c p q cb = Inl NotFound
    \<and> uploadFile cm c p q cb ex = Inl NotFound
    \<and> renameFile cm c p q = Inl NotFound
    \<and> deleteFile cm c p = Inl NotFound
    \<and> getFileStats cm c p = Inl NotFound
    \<and> chmod cm c p mode = Inl NotFound
    \<and> createDirectory cm c p = Inl NotFound"
  using assms
  by (simp add: disconnect_def listDirectory_def downloadFile_def uploadFile_def renameFile_def
      deleteFile_def getFileStats_def chmod_def createDirectory_def NotFound_def)

lemma disconnect_removes: "disconnect cm c = Inr (call, cm') \<Longrightarrow> connections cm' c = None"
  by (auto simp: disconnect_def split: option.splits)

text \<open>
  Claim C8, as stated, fails: \<open>pauseTransfer\<close>, \<open>resumeTransfer\<close> and
  \<open>cancelTransfer\<close> with a transfer id the queue does not have return normally and leave
  the queue as it was (the model gives them no error to return, since the code has no
  \<open>throw\<close> there), and \<open>setSpeedLimit\<close> with a session id the registry does not have
  stores the cap.
\<close>

theorem C8_unknown_transfer_counterexample:
  "find_transfer new_TransferQueue 7 = None
   \<and> pauseTransfer 7 new_TransferQueue = new_TransferQueue
   \<and> resumeTransfer 0 7 new_TransferQueue = new_TransferQueue
   \<and> cancelTransfer 0 7 new_TransferQueue = new_TransferQueue
   \<and> connections new_ConnectionManager ''ghost'' = None
   \<and> upload (getSpeedLimits
               (setSpeedLimit new_ConnectionManager ''ghost'' ''upload'' (JNumber (JNum 512)))
               ''ghost'')
       = JNumber (JNum 512)"
  by (simp add: tq_eval cm_eval)

text \<open>
  Claim C8, amended: each of \<open>disconnect\<close>, \<open>listDirectory\<close>, \<open>downloadFile\<close>,
  \<open>uploadFile\<close>, \<open>renameFile\<close>, \<open>deleteFile\<close>, \<open>getFileStats\<close>, \<open>chmod\<close> and
  \<open>createDirectory\<close>, called with a session id that the registry does not have or that
  has been disconnected, fails with the error \<open>Connection not found\<close> and makes no
  transport call; \<open>pauseTransfer\<close>, \<open>resumeTransfer\<close> and \<open>cancelTransfer\<close>, called
  with a transfer id that the queue does not have, leave the queue unchanged.
\<close>

theorem C8_unknown_ids:
  "(connections cm c = None \<longrightarrow>
      disconnect cm c = Inl NotFound
    \<and> listDirectory cm c p = Inl NotFound
    \<and> downloadFile cm c p q cb = Inl NotFound
    \<and> uploadFile cm c p q cb ex = Inl NotFound
    \<and> renameFile cm c p q = Inl NotFound
    \<and> deleteFile cm c p = Inl NotFound
    \<and> getFileStats cm c p = Inl NotFound
    \<and> chmod cm c p mode = Inl NotFound
    \<and> createDirectory cm c p = Inl NotFound)
 \<and> (\<forall>call cm'. disconnect cm c = Inr (call, cm') \<longrightarrow>
      disconnect cm' c = Inl NotFound
    \<and> listDirectory cm' c p = Inl NotFound
    \<and> downloadFile cm' c p q cb = Inl NotFound
    \<and> uploadFile cm' c p q cb ex = Inl NotFound
    \<and> renameFile cm' c p q = Inl NotFound
    \<and> deleteFile cm' c p = Inl NotFound
    \<and> getFileStats cm' c p = Inl NotFound
    \<and> chmod cm' c p mode = Inl NotFound
    \<and> createDirectory cm' c p = Inl NotFound)
 \<and> (find_transfer tq i = None \<longrightarrow>
      pauseTransfer i tq = tq \<and> resumeTransfer now i tq = tq \<and> cancelTransfer now i tq = tq)"
proof (intro conjI impI allI)
  assume "find_transfer tq i = None"
  then show "pauseTransfer i tq = tq" "resumeTransfer now i tq = tq"
    "cancelTransfer now i tq = tq"
    by (simp_all add: pauseTransfer_def resumeTransfer_def cancelTransfer_def)
qed (use unknown_session_fails disconnect_removes in blast)+

theorem C8_unknown_ids_witness:
  "listDirectory new_ConnectionManager ''ghost'' ''/'' = Inl NotFound
   \<and> chmod new_ConnectionManager ''ghost'' ''/'' ''644'' = Inl NotFound
   \<and> (case disconnect (example_session ''sftp'') ''c1'' of
        Inl e \<Rightarrow> False
      | Inr (call, cm') \<Rightarrow>
          downloadFile cm' ''c1'' ''/srv/a'' ''/home/u/a'' True = Inl NotFound
        \<and> disconnect cm' ''c1'' = Inl NotFound)
   \<and> cancelTransfer 0 7 new_TransferQueue = new_TransferQueue"
  using C8_unknown_ids
          [where cm = new_ConnectionManager and c = "''ghost''" and p = "''/''"
             and q = "''/srv/a''" and cb = True and ex = True and mode = "''644''"
             and tq = new_TransferQueue and i = 7 and now = 0]
        C8_unknown_ids
          [where cm = "example_session ''sftp''" and c = "''c1''" and p = "''/srv/a''"
             and q = "''/home/u/a''" and cb = True and ex = True and mode = "''644''"
             and tq = new_TransferQueue and i = 7 and now = 0]
  by (simp add: tq_eval cm_eval disconnect_def)

end
